theory Spec2Isabelle
  imports Main "HOL-Library.Char_ord" "HOL-Library.List_Lexorder"
begin

section \<open>Syntax nodes read by the dynamic-inference core\<close>

text \<open>
  The parser's node classes live in \<^verbatim>\<open>jedi.parser.representation\<close>; the functions of
  \<^verbatim>\<open>jedi/evaluate/dynamic.py\<close> read only the attributes modelled here.
  A position is the \<^verbatim>\<open>(line, column)\<close> tuple of \<^verbatim>\<open>start_pos\<close>.

  An element of an expression list is one of the statement elements, that is a call
  (\<^verbatim>\<open>pr.Call\<close>), a literal (\<^verbatim>\<open>pr.Literal\<close>, which is not a \<^verbatim>\<open>pr.Call\<close>) or an array
  (\<^verbatim>\<open>pr.Array\<close>), or anything else: an operator, a comprehension, a lambda, kept with the
  statements it holds. Every statement element carries a chain: its \<^verbatim>\<open>execution\<close>, the
  array of the brackets applied to it, and its \<^verbatim>\<open>next\<close>, the call after the dot. So
  \<^verbatim>\<open>1.0.hex(y)\<close> is a literal whose \<^verbatim>\<open>next\<close> is the call \<^verbatim>\<open>hex\<close> with an execution,
  \<^verbatim>\<open>[a].pop()\<close> is an array with a \<^verbatim>\<open>next\<close>, and in \<^verbatim>\<open>f(a)(b)\<close> the execution of \<^verbatim>\<open>f\<close>
  has an execution of its own.

  A call's \<^verbatim>\<open>name\<close> is a \<^verbatim>\<open>pr.Name\<close> with its tuple of name parts; the source tests for
  that (\<^verbatim>\<open>isinstance(n, pr.Name)\<close>), and \<open>NoName\<close> is a name attribute that fails the test.
  An array is iterated directly unless its type is \<^verbatim>\<open>DICT\<close>, where \<^verbatim>\<open>items()\<close> gives
  key and value statements in pairs; the two constructors of \<open>array\<close> are the two cases
  of the test \<^verbatim>\<open>arr.type == pr.Array.DICT\<close>.
\<close>

type_synonym position = "nat \<times> nat"

datatype name_node = Name (names: "string list") | NoName string

datatype call = Call (name: name_node) (execution: "array option")
    (next_link: "call option") (start_pos: position)
  and element =
      ECall call
    | ELiteral string "array option" "call option"
    | EArray array
    | EOther string "statement list"
  and array =
      Array "statement list" "array option" "call option"
    | Dict "(statement \<times> statement) list" "array option" "call option"
  and statement = Statement "element list" "(element list \<times> string) list" position

fun expression_list :: "statement \<Rightarrow> element list" where
  "expression_list (Statement es ds p) = es"

fun assignment_details :: "statement \<Rightarrow> (element list \<times> string) list" where
  "assignment_details (Statement es ds p) = ds"

fun stmt_start_pos :: "statement \<Rightarrow> position" where
  "stmt_start_pos (Statement es ds p) = p"

text \<open>\<^verbatim>\<open>isinstance(n, pr.Name) and search_name in n.names\<close>\<close>

fun name_contains :: "name_node \<Rightarrow> string \<Rightarrow> bool" where
  "name_contains (Name ns) search_name = (search_name \<in> set ns)"
| "name_contains (NoName t) search_name = False"

section \<open>The call-site scanner\<close>

text \<open>
  \<^verbatim>\<open>_scan_statement(stmt, search_name, assignment_details=False)\<close>.
  \<open>scan_check\<close> is the loop \<^verbatim>\<open>for c in check\<close>: an array is scanned through its elements,
  a call through its chain, and an element that is neither (a literal, an operator) is
  passed over with all that hangs on it. \<open>scan_links c s_new\<close> is the loop
  \<^verbatim>\<open>while s_new is not None\<close> (it appends the head \<open>c\<close> of the chain, not the link
  \<open>s_new\<close>), \<open>scan_array\<close> the inner function of that name, which looks at the elements
  of the array and not at the array's own chain. Every recursive call of the source
  leaves \<^verbatim>\<open>assignment_details\<close> at its default; with the flag set, the expression lists
  of the assignment details are appended to \<^verbatim>\<open>check\<close>, which \<open>scan_details\<close> walks (a
  theorem below relates the two forms).
\<close>

function (sequential) scan_check :: "element list \<Rightarrow> string \<Rightarrow> call list"
  and scan_links :: "call \<Rightarrow> call \<Rightarrow> string \<Rightarrow> call list"
  and scan_array :: "array \<Rightarrow> string \<Rightarrow> call list"
  and scan_stmts :: "statement list \<Rightarrow> string \<Rightarrow> call list"
  and scan_items :: "(statement \<times> statement) list \<Rightarrow> string \<Rightarrow> call list"
  and scan_details :: "(element list \<times> string) list \<Rightarrow> string \<Rightarrow> call list"
  and scan_statement :: "statement \<Rightarrow> string \<Rightarrow> bool \<Rightarrow> call list"
where
  "scan_check [] search_name = []"
| "scan_check (EArray a # check) search_name =
     scan_array a search_name @ scan_check check search_name"
| "scan_check (ECall c # check) search_name =
     scan_links c c search_name @ scan_check check search_name"
| "scan_check (ELiteral v ex nx # check) search_name = scan_check check search_name"
| "scan_check (EOther x ss # check) search_name = scan_check check search_name"
| "scan_links c (Call n ex nx p) search_name =
     (if name_contains n search_name then [c] else []) @
     (case ex of None \<Rightarrow> [] | Some a \<Rightarrow> scan_array a search_name) @
     (case nx of None \<Rightarrow> [] | Some s_new \<Rightarrow> scan_links c s_new search_name)"
| "scan_array (Array ss ex nx) search_name = scan_stmts ss search_name"
| "scan_array (Dict kvs ex nx) search_name = scan_items kvs search_name"
| "scan_stmts [] search_name = []"
| "scan_stmts (s # ss) search_name =
     scan_statement s search_name False @ scan_stmts ss search_name"
| "scan_items [] search_name = []"
| "scan_items ((key_stmt, value_stmt) # kvs) search_name =
     scan_statement key_stmt search_name False @
     scan_statement value_stmt search_name False @ scan_items kvs search_name"
| "scan_details [] search_name = []"
| "scan_details ((exprs, op) # ds) search_name =
     scan_check exprs search_name @ scan_details ds search_name"
| "scan_statement (Statement es ds p) search_name ad =
     scan_check es search_name @ (if ad then scan_details ds search_name else [])"
  by pat_completeness auto
termination
  by (relation "measure (\<lambda>x. case x of
      Inl (Inl (check, n)) \<Rightarrow> size_list size check
    | Inl (Inr (Inl (c, s_new, n))) \<Rightarrow> size s_new
    | Inl (Inr (Inr (a, n))) \<Rightarrow> size a
    | Inr (Inl (Inl (ss, n))) \<Rightarrow> size_list size ss
    | Inr (Inl (Inr (kvs, n))) \<Rightarrow> size_list (size_prod size size) kvs
    | Inr (Inr (Inl (ds, n))) \<Rightarrow> size_list (size_prod (size_list size) (\<lambda>_. 0)) ds
    | Inr (Inr (Inr (s, n, ad))) \<Rightarrow> size s)") auto

text \<open>The list \<^verbatim>\<open>check\<close> that \<^verbatim>\<open>_scan_statement\<close> builds before its loop.\<close>

definition check_list :: "statement \<Rightarrow> bool \<Rightarrow> element list" where
  "check_list stmt ad =
     expression_list stmt @ (if ad then concat (map fst (assignment_details stmt)) else [])"

subsection \<open>What a statement contains\<close>






section \<open>Flow narrowing\<close>

text \<open>
  \<^verbatim>\<open>str(call.name)\<close>: the class of the name is not part of this file of the repository.
  Modelled from the spec: the comparison is textual; a name prints as its parts joined by
  dots, anything else as its text.
\<close>

fun dotted :: "string list \<Rightarrow> string" where
  "dotted [] = []"
| "dotted [x] = x"
| "dotted (x # y # r) = x @ ''.'' @ dotted (y # r)"

fun str_name :: "name_node \<Rightarrow> string" where
  "str_name (Name ns) = dotted ns"
| "str_name (NoName t) = t"

text \<open>
  The collaborator interface the narrowing engine consumes: \<^verbatim>\<open>evaluator.eval_call\<close>,
  \<^verbatim>\<open>evaluator.execute\<close>, and on a result the test \<^verbatim>\<open>isinstance(c, iterable.Array)\<close> with
  \<^verbatim>\<open>c.get_index_types()\<close>.
\<close>

record 'v evaluator =
  eval_call :: "element \<Rightarrow> 'v list"
  execute :: "'v \<Rightarrow> 'v list"
  is_array :: "'v \<Rightarrow> bool"
  get_index_types :: "'v \<Rightarrow> 'v list"

text \<open>\<^verbatim>\<open>call.execution.values\<close>: the statements of an array (of a dict, its values).\<close>

fun array_values :: "array \<Rightarrow> statement list" where
  "array_values (Array ss ex nx) = ss"
| "array_values (Dict kvs ex nx) = map snd kvs"

text \<open>
  \<^verbatim>\<open>isinstance(e, pr.StatementElement)\<close>: calls, literals and arrays are statement
  elements.
\<close>

fun is_statement_element :: "element \<Rightarrow> bool" where
  "is_statement_element (ECall c) = True"
| "is_statement_element (ELiteral v ex nx) = True"
| "is_statement_element (EArray a) = True"
| "is_statement_element (EOther x ss) = False"

text \<open>
  The \<^verbatim>\<open>try\<close> block of \<^verbatim>\<open>_check_isinstance_type\<close>, one test per assertion, in the
  source's order: \<open>None\<close> is the caught \<^verbatim>\<open>AssertionError\<close>, \<open>Some e\<close> is
  \<^verbatim>\<open>classes[0]\<close> when every assertion holds. \<^verbatim>\<open>bool(call.execution)\<close> is false for
  \<^verbatim>\<open>None\<close>; whether an empty array is falsy too does not matter, since the next
  assertion wants two values.
\<close>

definition isinstance_classes :: "statement \<Rightarrow> string \<Rightarrow> element option" where
  "isinstance_classes stmt search_name =
     (case expression_list stmt of
        [ECall call] \<Rightarrow>
          if str_name (name call) \<noteq> ''isinstance'' then None
          else (case execution call of
             None \<Rightarrow> None
           | Some ex \<Rightarrow>
              (case array_values ex of
                 [s1, s2] \<Rightarrow>
                   (case expression_list s1 of
                      [obj0] \<Rightarrow>
                        (case expression_list s2 of
                           [classes0] \<Rightarrow>
                             (case obj0 of
                                ECall obj \<Rightarrow>
                                  if str_name (name obj) \<noteq> search_name then None
                                  else if is_statement_element classes0 then Some classes0
                                  else None
                              | _ \<Rightarrow> None)
                         | _ \<Rightarrow> None)
                    | _ \<Rightarrow> None)
               | _ \<Rightarrow> None))
      | _ \<Rightarrow> None)"

text \<open>The loop after the \<^verbatim>\<open>try\<close> block, for the evaluated second argument.\<close>

definition narrowed_types :: "'v evaluator \<Rightarrow> element \<Rightarrow> 'v list" where
  "narrowed_types evaluator classes0 =
     concat (map (\<lambda>c. concat (map (execute evaluator)
                    (if is_array evaluator c then get_index_types evaluator c else [c])))
       (eval_call evaluator classes0))"

definition check_isinstance_type :: "'v evaluator \<Rightarrow> statement \<Rightarrow> string \<Rightarrow> 'v list" where
  "check_isinstance_type evaluator stmt search_name =
     (case isinstance_classes stmt search_name of
        None \<Rightarrow> []
      | Some classes0 \<Rightarrow> narrowed_types evaluator classes0)"

text \<open>\<^verbatim>\<open>a > b\<close> on \<^verbatim>\<open>(line, column)\<close> tuples.\<close>

fun pos_gt :: "position \<Rightarrow> position \<Rightarrow> bool" where
  "pos_gt (l1, c1) (l2, c2) = (l1 > l2 \<or> (l1 = l2 \<and> c1 > c2))"

text \<open>
  The node handed to \<^verbatim>\<open>check_flow_information\<close>, with the two class tests the function
  makes on it (\<^verbatim>\<open>isinstance(flow, (pr.Scope, fast_parser.Module))\<close> and
  \<^verbatim>\<open>isinstance(flow, pr.Flow)\<close>) and the attributes it reads under each. In the parser
  \<^verbatim>\<open>pr.Flow\<close> is a subclass of \<^verbatim>\<open>pr.Scope\<close>: a parsed \<^verbatim>\<open>if\<close> or \<^verbatim>\<open>while\<close> passes both
  tests, and its \<^verbatim>\<open>asserts\<close> are the asserts of its body.
\<close>

record flow_node =
  is_scope :: bool
  is_flow :: bool
  asserts :: "statement list"
  command :: string
  inputs :: "statement list"

text \<open>
  The loop \<^verbatim>\<open>for ass in reversed(flow.asserts)\<close>, given the reversed list. \<^verbatim>\<open>result\<close> is
  empty whenever the loop goes on, so the value after the loop is the first non-empty
  result, or the empty list.
\<close>

fun assert_loop :: "'v evaluator \<Rightarrow> statement list \<Rightarrow> string \<Rightarrow> position option \<Rightarrow> 'v list" where
  "assert_loop evaluator [] search_name pos = []"
| "assert_loop evaluator (ass # rest) search_name pos =
     (case pos of
        None \<Rightarrow> assert_loop evaluator rest search_name pos
      | Some p \<Rightarrow>
          if pos_gt (stmt_start_pos ass) p then assert_loop evaluator rest search_name pos
          else (let result = check_isinstance_type evaluator ass search_name
                in if result \<noteq> [] then result
                   else assert_loop evaluator rest search_name pos))"

text \<open>
  \<^verbatim>\<open>check_flow_information(evaluator, flow, search_name, pos)\<close>; the first argument is
  \<^verbatim>\<open>settings.dynamic_flow_information\<close>. The outer \<open>None\<close> is Python's \<^verbatim>\<open>None\<close>, which
  the function returns when the switch is off; every other path returns a list.
\<close>

definition check_flow_information ::
  "bool \<Rightarrow> 'v evaluator \<Rightarrow> flow_node \<Rightarrow> string \<Rightarrow> position option \<Rightarrow> 'v list option" where
  "check_flow_information dynamic_flow_information evaluator flow search_name pos =
     (if \<not> dynamic_flow_information then None
      else
        let result = (if is_scope flow
                      then assert_loop evaluator (rev (asserts flow)) search_name pos
                      else []);
            result = (if is_flow flow \<and> result = [] then
                        (if command flow \<in> {''if'', ''while''} \<and> length (inputs flow) = 1
                         then check_isinstance_type evaluator (inputs flow ! 0) search_name
                         else result)
                      else result)
        in Some result)"

text \<open>
  An assert that the loop of lines 285 to 290 stops at: there is a query position, the
  assert does not start after it, and its guard check gives a non-empty result.
\<close>

definition usable_assert ::
  "'v evaluator \<Rightarrow> string \<Rightarrow> position option \<Rightarrow> statement \<Rightarrow> bool" where
  "usable_assert evaluator search_name pos ass =
     (case pos of
        None \<Rightarrow> False
      | Some p \<Rightarrow> \<not> pos_gt (stmt_start_pos ass) p \<and>
                  check_isinstance_type evaluator ass search_name \<noteq> [])"

subsection \<open>The type guard, as the spec words it\<close>

text \<open>
  The type guard in the spec's words: the statement is one expression, a call of
  \<^verbatim>\<open>isinstance\<close> with two arguments; the first argument is one expression, a call whose
  name is textually the variable's; the second is one expression that can stand for a
  type or a tuple of types (\<open>classes0\<close>).
\<close>

definition type_guard :: "statement \<Rightarrow> string \<Rightarrow> element \<Rightarrow> bool" where
  "type_guard stmt variable_name classes0 \<longleftrightarrow>
     (\<exists>call ex s1 s2 obj.
        expression_list stmt = [ECall call] \<and> str_name (name call) = ''isinstance'' \<and>
        execution call = Some ex \<and> array_values ex = [s1, s2] \<and>
        expression_list s1 = [ECall obj] \<and> str_name (name obj) = variable_name \<and>
        expression_list s2 = [classes0] \<and> is_statement_element classes0)"

section \<open>Splitting a call path in the per-module search\<close>

text \<open>
  \<^verbatim>\<open>lst.index(value)\<close>: the first index of the value; \<open>None\<close> is the \<^verbatim>\<open>ValueError\<close> of
  a value that is not in the list.
\<close>

fun index_of :: "'a list \<Rightarrow> 'a \<Rightarrow> nat option" where
  "index_of [] v = None"
| "index_of (x # xs) v = (if x = v then Some 0 else map_option Suc (index_of xs v))"

text \<open>\<^verbatim>\<open>len(lst) - lst[-1::-1].index(value) - 1\<close>\<close>

definition listRightIndex :: "'a list \<Rightarrow> 'a \<Rightarrow> nat option" where
  "listRightIndex lst v =
     (case index_of (rev lst) v of
        None \<Rightarrow> None
      | Some j \<Rightarrow> Some (length lst - j - 1))"

text \<open>
  Lines 171 to 174 of \<^verbatim>\<open>get_posibilities\<close> for one matched call: \<open>ValueError\<close> when the
  name is not in the path, \<open>Continue\<close> when the match is skipped by \<^verbatim>\<open>continue\<close>,
  \<open>Proceed first last\<close> otherwise. \<^verbatim>\<open>and\<close> evaluates its second operand only when
  \<^verbatim>\<open>last\<close> is empty.
\<close>

datatype 'a split = ValueError | Continue | Proceed "'a list" "'a list"

definition split_call_path :: "'a list \<Rightarrow> 'a \<Rightarrow> 'a split" where
  "split_call_path call_path func_name =
     (case listRightIndex call_path func_name of
        None \<Rightarrow> ValueError
      | Some i \<Rightarrow>
          let first = take i call_path; last = drop (i + 1) call_path
          in if last = [] then
               (case index_of call_path func_name of
                  None \<Rightarrow> ValueError
                | Some j \<Rightarrow> if \<not> (j \<noteq> i) then Continue else Proceed first last)
             else Proceed first last)"

text \<open>
  Elements of a flattened call path: the parts of names, and the arrays of executions.
  The path of \<^verbatim>\<open>foo\<close> alone is one name part; the path of \<^verbatim>\<open>a.foo(1)\<close> is two name parts and
  an execution.
\<close>

datatype segment = NamePart string | Execution array

section \<open>Module discovery\<close>

text \<open>
  The exceptions that can reach the functions of this file. \<open>IOError\<close> is the class that
  the \<^verbatim>\<open>except\<close> clause of line 79 names; on Python 3 it is \<^verbatim>\<open>OSError\<close> itself, so every
  failure of \<^verbatim>\<open>open\<close>, of a read or of \<^verbatim>\<open>os.listdir\<close> that the operating system reports
  is this one. A decode error is a \<^verbatim>\<open>ValueError\<close>, not an \<open>IOError\<close>. The cache miss
  (\<^verbatim>\<open>KeyError\<close>) is the \<open>None\<close> of the cache lookup below.
\<close>

datatype exn = IOError | UnicodeDecodeError | EvaluatorError

text \<open>A module: its \<^verbatim>\<open>path\<close> (absent for a builtin module) and its identity as an object.\<close>

record module_node =
  path :: "string option"
  module_id :: nat

text \<open>
  What discovery reads from outside: \<^verbatim>\<open>cache.parser_cache[path].parser.module\<close>,
  the text of a file (\<^verbatim>\<open>open\<close>, \<^verbatim>\<open>f.read()\<close> and \<^verbatim>\<open>source_to_unicode\<close>, any of which can
  raise), \<^verbatim>\<open>imports.load_module\<close>, \<^verbatim>\<open>os.listdir\<close>, \<^verbatim>\<open>os.path.dirname\<close> and
  \<^verbatim>\<open>os.path.sep\<close>.
\<close>

record environment =
  parser_cache :: "string \<Rightarrow> module_node option"
  read_source :: "string \<Rightarrow> exn + string"
  load_module :: "string \<Rightarrow> string \<Rightarrow> module_node"
  listdir :: "string \<Rightarrow> exn + string list"
  dirname :: "string \<Rightarrow> string"
  sep :: string

fun startswith :: "string \<Rightarrow> string \<Rightarrow> bool" where
  "startswith s [] = True"
| "startswith [] (c # p) = False"
| "startswith (d # s) (c # p) = (d = c \<and> startswith s p)"

definition endswith :: "string \<Rightarrow> string \<Rightarrow> bool" where
  "endswith s suffix = startswith (rev s) (rev suffix)"

text \<open>\<^verbatim>\<open>name in source\<close>: the name is a substring of the text.\<close>

fun is_in :: "string \<Rightarrow> string \<Rightarrow> bool" where
  "is_in nm [] = (nm = [])"
| "is_in nm (c # source) = (startswith (c # source) nm \<or> is_in nm source)"

text \<open>
  \<^verbatim>\<open>check_fs\<close> and \<^verbatim>\<open>check_python_file\<close> return a module or \<^verbatim>\<open>None\<close>, or raise. Beside
  the value, the model returns the paths it handed to \<^verbatim>\<open>load_module\<close>, so that parsing
  a file is visible in the result.
\<close>

definition check_fs ::
  "environment \<Rightarrow> string \<Rightarrow> string \<Rightarrow> exn + (module_node option \<times> string list)" where
  "check_fs env nm p =
     (case read_source env p of
        Inl e \<Rightarrow> Inl e
      | Inr source \<Rightarrow>
          if is_in nm source then Inr (Some (load_module env p source), [p])
          else Inr (None, []))"

definition check_python_file ::
  "environment \<Rightarrow> string \<Rightarrow> string \<Rightarrow> exn + (module_node option \<times> string list)" where
  "check_python_file env nm p =
     (case parser_cache env p of
        Some m \<Rightarrow> Inr (Some m, [])
      | None \<Rightarrow>
          (case check_fs env nm p of
             Inl e \<Rightarrow> if e = IOError then Inr (None, []) else Inl e
           | Inr r \<Rightarrow> Inr r))"

text \<open>
  What the generator has done when it is run to its end: the modules it yielded, in
  order, the files it parsed, and the exception that ended it, if one did.
\<close>

record discovery =
  yielded :: "module_node list"
  parsed :: "string list"
  raised :: "exn option"

text \<open>The loop \<^verbatim>\<open>for p in sorted(paths)\<close>, given the sorted list.\<close>

fun check_paths ::
  "environment \<Rightarrow> string \<Rightarrow> module_node list \<Rightarrow> string list \<Rightarrow> discovery" where
  "check_paths env nm mods [] = \<lparr>yielded = [], parsed = [], raised = None\<rparr>"
| "check_paths env nm mods (p # ps) =
     (case check_python_file env nm p of
        Inl e \<Rightarrow> \<lparr>yielded = [], parsed = [], raised = Some e\<rparr>
      | Inr (c, loaded) \<Rightarrow>
          (let r = check_paths env nm mods ps
           in \<lparr>yielded = (case c of
                             None \<Rightarrow> []
                           | Some m \<Rightarrow> if m \<notin> set mods then [m] else []) @ yielded r,
                parsed = loaded @ parsed r,
                raised = raised r\<rparr>))"

text \<open>
  The loop \<^verbatim>\<open>for p in mod_paths\<close> that collects the sibling files; \<^verbatim>\<open>os.listdir\<close> is
  outside every \<^verbatim>\<open>try\<close>, so its exception ends the generator.
\<close>

fun sibling_paths ::
  "environment \<Rightarrow> string option list \<Rightarrow> string option list \<Rightarrow> exn + string list" where
  "sibling_paths env mod_paths [] = Inr []"
| "sibling_paths env mod_paths (None # ps) = sibling_paths env mod_paths ps"
| "sibling_paths env mod_paths (Some p # ps) =
     (let d = dirname env p in
      case listdir env d of
        Inl e \<Rightarrow> Inl e
      | Inr entries \<Rightarrow>
          (case sibling_paths env mod_paths ps of
             Inl e \<Rightarrow> Inl e
           | Inr rest \<Rightarrow>
               Inr (map (\<lambda>entry. d @ sep env @ entry)
                      (filter (\<lambda>entry. Some entry \<notin> set mod_paths \<and> endswith entry ''.py'')
                         entries) @ rest)))"

text \<open>
  Lines 97 to 106: the set \<^verbatim>\<open>paths\<close> of the configured extra paths and the sibling files,
  as \<^verbatim>\<open>sorted(paths)\<close> lists it. The set is kept as a list without repeats; the order
  of strings is the lexicographic one over character codes, as for Python's \<^verbatim>\<open>str\<close>.
\<close>

definition candidate_paths ::
  "string list \<Rightarrow> environment \<Rightarrow> string option list \<Rightarrow> exn + string list" where
  "candidate_paths additional_dynamic_modules env mod_paths =
     (case sibling_paths env mod_paths mod_paths of
        Inl e \<Rightarrow> Inl e
      | Inr siblings \<Rightarrow> Inr (sort (remdups (additional_dynamic_modules @ siblings))))"

text \<open>
  The source builds a set of the seed modules (line 90) and a set of their paths (lines
  91 to 93), and iterates both (lines 92 and 98). Python does not fix the order in which
  a set is iterated: for module objects it follows their hashes, which change from run
  to run. A \<open>set_order\<close> is the way one run lists the elements of a set that was built
  from a given list; \<open>enumerates\<close> says that it lists each element once and no other.
\<close>

record set_order =
  modules_order :: "module_node list \<Rightarrow> module_node list"
  paths_order :: "string option list \<Rightarrow> string option list"


text \<open>Two such orders: by first occurrence in the list, and the reverse of that.\<close>

definition list_order :: set_order where
  "list_order = \<lparr>modules_order = remdups, paths_order = remdups\<rparr>"


text \<open>
  Line 90, the set \<^verbatim>\<open>mods\<close> as the loop of line 92 goes through it, and the set
  \<^verbatim>\<open>mod_paths\<close> as the loop of line 98 goes through it.
\<close>

definition seed_modules :: "set_order \<Rightarrow> module_node list \<Rightarrow> module_node list" where
  "seed_modules order mods =
     modules_order order
       (filter (\<lambda>m. case path m of None \<Rightarrow> True | Some p \<Rightarrow> endswith p ''.py'') mods)"

definition seed_paths :: "set_order \<Rightarrow> module_node list \<Rightarrow> string option list" where
  "seed_paths order mods = paths_order order (map path (seed_modules order mods))"

text \<open>
  \<^verbatim>\<open>get_directory_modules_for_name(mods, name)\<close>; the first argument is the set order of
  the run, the next two are \<^verbatim>\<open>settings.dynamic_params_for_other_modules\<close> and
  \<^verbatim>\<open>settings.additional_dynamic_modules\<close>. The tests \<^verbatim>\<open>entry not in mod_paths\<close> and
  \<^verbatim>\<open>c not in mods\<close> are memberships and do not depend on the order.
\<close>

definition get_directory_modules_for_name ::
  "set_order \<Rightarrow> bool \<Rightarrow> string list \<Rightarrow> environment \<Rightarrow> module_node list \<Rightarrow> string \<Rightarrow>
   discovery" where
  "get_directory_modules_for_name order dynamic_params_for_other_modules
       additional_dynamic_modules env mods nm =
     (let seeds = seed_modules order mods;
          mod_paths = seed_paths order mods
      in if \<not> dynamic_params_for_other_modules
         then \<lparr>yielded = seeds, parsed = [], raised = None\<rparr>
         else (case candidate_paths additional_dynamic_modules env mod_paths of
                 Inl e \<Rightarrow> \<lparr>yielded = seeds, parsed = [], raised = Some e\<rparr>
               | Inr paths \<Rightarrow>
                   (let r = check_paths env nm seeds paths
                    in \<lparr>yielded = seeds @ yielded r, parsed = parsed r, raised = raised r\<rparr>)))"

section \<open>Dynamic parameter search\<close>

text \<open>
  The loop of \<^verbatim>\<open>search_params\<close> over the discovered modules: it stops at the first
  module with a non-empty result; an exception of \<^verbatim>\<open>get_params_for_module\<close>, or of the
  generator once its modules are used up, leaves the loop as an exception.
\<close>

fun first_result ::
  "(module_node \<Rightarrow> exn + 'r list) \<Rightarrow> module_node list \<Rightarrow> exn option \<Rightarrow> exn + 'r list" where
  "first_result get_params_for_module [] None = Inr []"
| "first_result get_params_for_module [] (Some e) = Inl e"
| "first_result get_params_for_module (m # rest) fin =
     (case get_params_for_module m of
        Inl e \<Rightarrow> Inl e
      | Inr result \<Rightarrow>
          if result \<noteq> [] then Inr result
          else first_result get_params_for_module rest fin)"

text \<open>
  \<^verbatim>\<open>search_params\<close> from the test of \<^verbatim>\<open>settings.dynamic_params\<close> on, with the listener
  set of the function as state: the result is the listener set after the call, and the
  returned list or the exception that left the function. \<open>listener\<close> is the new
  \<^verbatim>\<open>ParamListener()\<close>. The source has no \<^verbatim>\<open>try\<close> around the loop, so
  \<^verbatim>\<open>func.listeners.remove(listener)\<close> runs only when the loop ends normally. The
  statements between the test and \<^verbatim>\<open>func.listeners.add(listener)\<close> compute the two names
  and do not touch the listener set; the memoizing decorator answers a repeated call
  without entering the function. Discovery is seeded with the one module
  \<^verbatim>\<open>current_module\<close>; a set of one element is iterated in one way, whatever the run
  (\<open>single_seed_any_order\<close> below), so the model takes \<open>list_order\<close>.
\<close>

definition search_params ::
  "bool \<Rightarrow> bool \<Rightarrow> string list \<Rightarrow> environment \<Rightarrow> (module_node \<Rightarrow> exn + 'r list) \<Rightarrow>
   module_node \<Rightarrow> string \<Rightarrow> 'l \<Rightarrow> 'l set \<Rightarrow> 'l set \<times> (exn + 'r list)" where
  "search_params dynamic_params dynamic_params_for_other_modules additional_dynamic_modules
       env get_params_for_module current_module func_name listener listeners =
     (if \<not> dynamic_params then (listeners, Inr [])
      else
        let listeners = insert listener listeners;
            d = get_directory_modules_for_name list_order dynamic_params_for_other_modules
                  additional_dynamic_modules env [current_module] func_name
        in case first_result get_params_for_module (yielded d) (raised d) of
             Inl e \<Rightarrow> (listeners, Inl e)
           | Inr result \<Rightarrow> (listeners - {listener}, Inr result))"

section \<open>Concrete syntax trees and collaborators\<close>







text \<open>\<^verbatim>\<open>isinstance(x, classes)\<close> as a statement, for a variable and a second argument.\<close>

definition isinstance_stmt :: "string \<Rightarrow> element \<Rightarrow> position \<Rightarrow> statement" where
  "isinstance_stmt x classes0 p =
     Statement
       [ECall (Call (Name [''isinstance''])
          (Some (Array [Statement [ECall (Call (Name [x]) None None p)] [] p,
                        Statement [classes0] [] p] None None))
          None p)]
       [] p"

definition name_expr :: "string \<Rightarrow> element" where
  "name_expr n = ECall (Call (Name [n]) None None (0, 0))"

definition tuple_expr :: "string list \<Rightarrow> element" where
  "tuple_expr ns =
     EArray (Array (map (\<lambda>n. Statement [name_expr n] [] (0, 0)) ns) None None)"

text \<open>\<^verbatim>\<open>x == 1\<close>: a name, an operator and a literal.\<close>

definition ex_comparison :: statement where
  "ex_comparison =
     Statement [name_expr ''x'', EOther ''=='' [], ELiteral ''1'' None None] [] (0, 0)"

text \<open>
  A small evaluator: a name evaluates to the type of that name, except \<^verbatim>\<open>unknown\<close>, which
  evaluates to nothing; an array evaluates to one tuple object holding the types of its
  one-name statements; executing a type gives its instance.
\<close>

datatype ex_value = TypeObj string | TupleObj "ex_value list" | Instance string

fun ex_type_of_stmt :: "statement \<Rightarrow> ex_value list" where
  "ex_type_of_stmt (Statement [ECall c] ds p) = [TypeObj (str_name (name c))]"
| "ex_type_of_stmt (Statement es ds p) = []"

fun ex_eval_call :: "element \<Rightarrow> ex_value list" where
  "ex_eval_call (ECall c) =
     (if str_name (name c) = ''unknown'' then [] else [TypeObj (str_name (name c))])"
| "ex_eval_call (EArray a) = [TupleObj (concat (map ex_type_of_stmt (array_values a)))]"
| "ex_eval_call (ELiteral v ex nx) = []"
| "ex_eval_call (EOther x ss) = []"

fun ex_execute :: "ex_value \<Rightarrow> ex_value list" where
  "ex_execute (TypeObj t) = [Instance t]"
| "ex_execute v = []"

fun ex_is_array :: "ex_value \<Rightarrow> bool" where
  "ex_is_array (TupleObj vs) = True"
| "ex_is_array v = False"

fun ex_index_types :: "ex_value \<Rightarrow> ex_value list" where
  "ex_index_types (TupleObj vs) = vs"
| "ex_index_types v = []"

definition ex_evaluator :: "ex_value evaluator" where
  "ex_evaluator =
     \<lparr>eval_call = ex_eval_call, execute = ex_execute,
      is_array = ex_is_array, get_index_types = ex_index_types\<rparr>"

text \<open>
  A flow with one condition and the asserts of its body; being a \<^verbatim>\<open>pr.Flow\<close>, it is a
  \<^verbatim>\<open>pr.Scope\<close> too. \<open>if_flow\<close> is an \<^verbatim>\<open>if\<close> with no assert in its body.
\<close>

definition flow_with :: "string \<Rightarrow> statement \<Rightarrow> statement list \<Rightarrow> flow_node" where
  "flow_with cmd cond as =
     \<lparr>is_scope = True, is_flow = True, asserts = as, command = cmd, inputs = [cond]\<rparr>"

definition if_flow :: "statement \<Rightarrow> flow_node" where
  "if_flow cond =
     \<lparr>is_scope = True, is_flow = True, asserts = [], command = ''if'', inputs = [cond]\<rparr>"

text \<open>
  \<^verbatim>\<open>if isinstance(x, int):\<close> on line 1, with \<^verbatim>\<open>assert isinstance(x, str)\<close> on line 2 of its
  body.
\<close>

definition ex_guarded_flow :: flow_node where
  "ex_guarded_flow =
     flow_with ''if'' (isinstance_stmt ''x'' (name_expr ''int'') (1, 3))
       [isinstance_stmt ''x'' (name_expr ''str'') (2, 11)]"

text \<open>A module or function body, which is a scope and no flow, with its asserts.\<close>

definition scope_with :: "statement list \<Rightarrow> flow_node" where
  "scope_with as =
     \<lparr>is_scope = True, is_flow = False, asserts = as, command = [], inputs = []\<rparr>"

text \<open>Three asserts on \<^verbatim>\<open>x\<close>, on lines 1, 2 and 9.\<close>

definition ex_asserts :: "statement list" where
  "ex_asserts =
     [isinstance_stmt ''x'' (name_expr ''int'') (1, 7),
      isinstance_stmt ''x'' (name_expr ''str'') (2, 7),
      isinstance_stmt ''x'' (name_expr ''float'') (9, 7)]"

text \<open>
  A directory \<^verbatim>\<open>/p\<close> with the seed module \<^verbatim>\<open>a.py\<close>, which defines \<^verbatim>\<open>foo\<close>, a file
  \<^verbatim>\<open>b.py\<close> whose text does not contain \<^verbatim>\<open>foo\<close>, a file \<^verbatim>\<open>c.py\<close> that calls it, and a
  file that is no Python source. Only the seed is in the parser cache.
\<close>

definition ex_module_a :: module_node where
  "ex_module_a = \<lparr>path = Some ''/p/a.py'', module_id = 1\<rparr>"



definition ex_dirname :: "string \<Rightarrow> string" where
  "ex_dirname p = rev (drop 1 (dropWhile (\<lambda>c. c \<noteq> CHR ''/'') (rev p)))"

definition ex_env :: environment where
  "ex_env =
     \<lparr>parser_cache = (\<lambda>p. if p = ''/p/a.py'' then Some ex_module_a else None),
      read_source = (\<lambda>p. if p = ''/p/a.py'' then Inr ''def foo(bar): pass''
                          else if p = ''/p/b.py'' then Inr ''x = 1''
                          else if p = ''/p/c.py'' then Inr ''foo(1)''
                          else Inl IOError),
      load_module = (\<lambda>p source. \<lparr>path = Some p, module_id = 100 + length source\<rparr>),
      listdir = (\<lambda>d. if d = ''/p'' then Inr [''c.py'', ''notes.txt'', ''b.py'', ''a.py'']
                      else Inl IOError),
      dirname = ex_dirname,
      sep = ''/''\<rparr>"


text \<open>The same directory, where reading \<^verbatim>\<open>b.py\<close> raises: an \<^verbatim>\<open>IOError\<close>, or a decode error.\<close>

definition ex_env_unreadable :: environment where
  "ex_env_unreadable =
     ex_env\<lparr>read_source := (\<lambda>p. if p = ''/p/b.py'' then Inl IOError else read_source ex_env p)\<rparr>"

definition ex_env_undecodable :: environment where
  "ex_env_undecodable =
     ex_env\<lparr>read_source := (\<lambda>p. if p = ''/p/b.py'' then Inl UnicodeDecodeError
                                  else read_source ex_env p)\<rparr>"


section \<open>The scanner: what it returns\<close>

lemma scan_check_append:
  "scan_check (xs @ ys) n = scan_check xs n @ scan_check ys n"
proof (induction xs)
  case Nil
  show ?case by simp
next
  case (Cons e xs)
  then show ?case by (cases e) simp_all
qed

lemma scan_details_concat:
  "scan_details ds n = scan_check (concat (map fst ds)) n"
  by (induction ds) (auto simp: scan_check_append)

















text \<open>
  The scanner with the flag is the loop over the list \<^verbatim>\<open>check\<close>: the expression list,
  followed by the expression lists of the assignment details when the flag is set.
\<close>

theorem scan_statement_is_loop_over_check:
  "scan_statement stmt search_name ad = scan_check (check_list stmt ad) search_name"
  by (cases stmt) (simp add: check_list_def scan_check_append scan_details_concat)

section \<open>Flow narrowing: the switch and the position\<close>

lemma assert_loop_None: "assert_loop evaluator as search_name None = []"
  by (induction as) simp_all

text \<open>
  Claim C5, as amended. With \<^verbatim>\<open>dynamic_flow_information\<close> off, the function returns
  \<^verbatim>\<open>None\<close> at once, whatever the flow, the name and the position; it does not return a
  list.
\<close>

theorem check_flow_information_disabled:
  "check_flow_information False evaluator flow search_name pos = None"
  by (simp add: check_flow_information_def)

theorem check_flow_information_disabled_witness:
  "check_flow_information False ex_evaluator
     (if_flow (isinstance_stmt ''x'' (name_expr ''int'') (3, 3))) ''x'' (Some (5, 0)) = None"
  using check_flow_information_disabled
    [of ex_evaluator "if_flow (isinstance_stmt ''x'' (name_expr ''int'') (3, 3))" "''x''"
      "Some (5, 0)"]
  by simp

text \<open>The value returned with the switch off is not the empty list.\<close>

theorem check_flow_information_disabled_not_empty_list:
  "check_flow_information False ex_evaluator
     (if_flow (isinstance_stmt ''x'' (name_expr ''int'') (3, 3))) ''x'' (Some (5, 0)) \<noteq> Some []"
  by (simp add: check_flow_information_def)

text \<open>
  Claim C10. Without a query position and with the switch on, every assert is skipped:
  the result is that of branch narrowing on a one-condition \<^verbatim>\<open>if\<close> or \<^verbatim>\<open>while\<close>, or
  empty, and it is the result for the same node without its asserts.
\<close>

theorem check_flow_information_no_position:
  "check_flow_information True evaluator flow search_name None =
     Some (if is_flow flow \<and> command flow \<in> {''if'', ''while''} \<and> length (inputs flow) = 1
           then check_isinstance_type evaluator (inputs flow ! 0) search_name else [])
   \<and> check_flow_information True evaluator flow search_name None =
     check_flow_information True evaluator (flow\<lparr>asserts := []\<rparr>) search_name None"
  by (simp add: check_flow_information_def assert_loop_None)

text \<open>
  A scope with a matching assert gives nothing without a position, and gives the
  narrowed type with one.
\<close>

theorem check_flow_information_no_position_witness:
  "check_flow_information True ex_evaluator
     (scope_with [isinstance_stmt ''x'' (name_expr ''int'') (3, 3)]) ''x'' None = Some []
   \<and> check_flow_information True ex_evaluator
     (scope_with [isinstance_stmt ''x'' (name_expr ''int'') (3, 3)]) ''x'' (Some (4, 0)) =
       Some [Instance ''int'']"
proof -
  have "check_flow_information True ex_evaluator
     (scope_with [isinstance_stmt ''x'' (name_expr ''int'') (3, 3)]) ''x'' None = Some []"
    using check_flow_information_no_position
      [of ex_evaluator "scope_with [isinstance_stmt ''x'' (name_expr ''int'') (3, 3)]" "''x''"]
    by (simp add: scope_with_def)
  moreover have "check_flow_information True ex_evaluator
     (scope_with [isinstance_stmt ''x'' (name_expr ''int'') (3, 3)]) ''x'' (Some (4, 0)) =
       Some [Instance ''int'']"
    by (simp add: check_flow_information_def scope_with_def isinstance_stmt_def name_expr_def
        check_isinstance_type_def isinstance_classes_def narrowed_types_def ex_evaluator_def)
  ultimately show ?thesis by simp
qed

section \<open>Flow narrowing: the type guard and the asserts\<close>

lemma isinstance_classes_Some:
  "isinstance_classes stmt n = Some cls \<Longrightarrow> type_guard stmt n cls"
  unfolding isinstance_classes_def type_guard_def
  by (auto split: list.splits element.splits option.splits if_splits)

lemma type_guard_classes:
  "type_guard stmt n cls \<Longrightarrow> isinstance_classes stmt n = Some cls"
  unfolding isinstance_classes_def type_guard_def
  by auto

lemma isinstance_stmt_guard:
  "is_statement_element cls \<Longrightarrow> type_guard (isinstance_stmt x cls p) x cls"
  by (simp add: type_guard_def isinstance_stmt_def)

lemma concat_map_concat:
  "concat (map (\<lambda>c. concat (map f (g c))) xs) = concat (map f (concat (map g xs)))"
  by (induction xs) simp_all

lemma assert_loop_skip:
  "\<forall>b \<in> set xs. pos_gt (stmt_start_pos b) p \<or> check_isinstance_type ev b n = [] \<Longrightarrow>
   assert_loop ev (xs @ ys) n (Some p) = assert_loop ev ys n (Some p)"
  by (induction xs) (auto simp: Let_def)

lemma no_usable_assert:
  "\<forall>b \<in> set as. \<not> usable_assert evaluator search_name pos b \<Longrightarrow>
   assert_loop evaluator (rev as) search_name pos = []"
proof (cases pos)
  case None
  then show ?thesis by (simp add: assert_loop_None)
next
  case (Some p)
  assume "\<forall>b \<in> set as. \<not> usable_assert evaluator search_name pos b"
  with Some have "\<forall>b \<in> set (rev as). pos_gt (stmt_start_pos b) p \<or>
      check_isinstance_type evaluator b search_name = []"
    by (auto simp: usable_assert_def)
  from assert_loop_skip [OF this, of "[]"] Some show ?thesis by simp
qed

text \<open>
  Claim C3, as amended. The check yields the narrowed types of the second argument when
  the statement is a type guard for the name, and the empty list, not an error, for every
  statement that is not; so a non-empty result comes only from a guard. Narrowing over an
  \<^verbatim>\<open>if\<close> or \<^verbatim>\<open>while\<close> whose one condition is a guard for the name gives the types of the
  evaluated second argument (a result that is an array stands for its elements, each is
  executed, and the results are joined), provided no assert of the flow's own body is
  usable at the query position: a flow is a scope too, and its asserts are tried first.
\<close>

theorem check_isinstance_type_matches_guard:
  "(type_guard stmt search_name classes0 \<longrightarrow>
      check_isinstance_type evaluator stmt search_name = narrowed_types evaluator classes0)
   \<and> ((\<forall>e. \<not> type_guard stmt search_name e) \<longrightarrow>
      check_isinstance_type evaluator stmt search_name = [])
   \<and> (is_flow flow \<and> command flow \<in> {''if'', ''while''} \<and> inputs flow = [stmt] \<and>
       type_guard stmt search_name classes0 \<and>
       (is_scope flow \<longrightarrow>
          (\<forall>b \<in> set (asserts flow). \<not> usable_assert evaluator search_name pos b)) \<longrightarrow>
      check_flow_information True evaluator flow search_name pos =
        Some (narrowed_types evaluator classes0))
   \<and> narrowed_types evaluator classes0 =
      concat (map (execute evaluator)
        (concat (map (\<lambda>c. if is_array evaluator c then get_index_types evaluator c else [c])
           (eval_call evaluator classes0))))"
proof (intro conjI)
  show "type_guard stmt search_name classes0 \<longrightarrow>
      check_isinstance_type evaluator stmt search_name = narrowed_types evaluator classes0"
    by (simp add: check_isinstance_type_def type_guard_classes)
  show "(\<forall>e. \<not> type_guard stmt search_name e) \<longrightarrow>
      check_isinstance_type evaluator stmt search_name = []"
  proof
    assume none: "\<forall>e. \<not> type_guard stmt search_name e"
    have "isinstance_classes stmt search_name = None"
    proof (cases "isinstance_classes stmt search_name")
      case None
      then show ?thesis .
    next
      case (Some e)
      with none show ?thesis by (auto dest: isinstance_classes_Some)
    qed
    then show "check_isinstance_type evaluator stmt search_name = []"
      by (simp add: check_isinstance_type_def)
  qed
  show "is_flow flow \<and> command flow \<in> {''if'', ''while''} \<and> inputs flow = [stmt] \<and>
       type_guard stmt search_name classes0 \<and>
       (is_scope flow \<longrightarrow>
          (\<forall>b \<in> set (asserts flow). \<not> usable_assert evaluator search_name pos b)) \<longrightarrow>
      check_flow_information True evaluator flow search_name pos =
        Some (narrowed_types evaluator classes0)"
  proof
    assume h: "is_flow flow \<and> command flow \<in> {''if'', ''while''} \<and> inputs flow = [stmt] \<and>
       type_guard stmt search_name classes0 \<and>
       (is_scope flow \<longrightarrow>
          (\<forall>b \<in> set (asserts flow). \<not> usable_assert evaluator search_name pos b))"
    then have a: "is_scope flow \<longrightarrow> assert_loop evaluator (rev (asserts flow)) search_name pos = []"
      by (simp add: no_usable_assert)
    from h have "isinstance_classes stmt search_name = Some classes0"
      by (simp add: type_guard_classes)
    then have c: "check_isinstance_type evaluator stmt search_name =
        narrowed_types evaluator classes0"
      by (simp add: check_isinstance_type_def)
    from h a c show "check_flow_information True evaluator flow search_name pos =
        Some (narrowed_types evaluator classes0)"
      by (auto simp: check_flow_information_def Let_def)
  qed
  show "narrowed_types evaluator classes0 =
      concat (map (execute evaluator)
        (concat (map (\<lambda>c. if is_array evaluator c then get_index_types evaluator c else [c])
           (eval_call evaluator classes0))))"
    unfolding narrowed_types_def by (rule concat_map_concat)
qed

text \<open>
  \<^verbatim>\<open>isinstance(x, int)\<close> narrows to the instance of \<^verbatim>\<open>int\<close>, also in a \<^verbatim>\<open>while\<close> whose body
  has an assert after the query position; \<^verbatim>\<open>isinstance(x, (int, str))\<close> narrows to both
  instances; \<^verbatim>\<open>x == 1\<close>, which is no guard, to nothing.
\<close>

theorem check_isinstance_type_matches_guard_witness:
  "type_guard (isinstance_stmt ''x'' (name_expr ''int'') (3, 3)) ''x'' (name_expr ''int'')
   \<and> check_isinstance_type ex_evaluator (isinstance_stmt ''x'' (name_expr ''int'') (3, 3)) ''x'' =
       [Instance ''int'']
   \<and> check_flow_information True ex_evaluator
       (if_flow (isinstance_stmt ''x'' (name_expr ''int'') (3, 3))) ''x'' (Some (4, 4)) =
       Some [Instance ''int'']
   \<and> check_flow_information True ex_evaluator
       (flow_with ''while'' (isinstance_stmt ''x'' (name_expr ''int'') (3, 3))
          [isinstance_stmt ''x'' (name_expr ''str'') (9, 7)]) ''x'' (Some (4, 4)) =
       Some [Instance ''int'']
   \<and> check_flow_information True ex_evaluator
       (if_flow (isinstance_stmt ''x'' (tuple_expr [''int'', ''str'']) (3, 3))) ''x'' None =
       Some [Instance ''int'', Instance ''str'']
   \<and> (\<forall>e. \<not> type_guard ex_comparison ''x'' e)
   \<and> check_flow_information True ex_evaluator (if_flow ex_comparison) ''x'' None = Some []"
proof -
  let ?int = "isinstance_stmt ''x'' (name_expr ''int'') (3, 3)"
  let ?tup = "isinstance_stmt ''x'' (tuple_expr [''int'', ''str'']) (3, 3)"
  let ?late = "isinstance_stmt ''x'' (name_expr ''str'') (9, 7)"
  have int_types: "narrowed_types ex_evaluator (name_expr ''int'') = [Instance ''int'']"
    by (simp add: narrowed_types_def ex_evaluator_def name_expr_def)
  have tuple_types: "narrowed_types ex_evaluator (tuple_expr [''int'', ''str'']) =
      [Instance ''int'', Instance ''str'']"
    by (simp add: narrowed_types_def ex_evaluator_def name_expr_def tuple_expr_def)
  have g: "type_guard ?int ''x'' (name_expr ''int'')"
    by (simp add: type_guard_def isinstance_stmt_def name_expr_def)
  have gt: "type_guard ?tup ''x'' (tuple_expr [''int'', ''str''])"
    by (simp add: type_guard_def isinstance_stmt_def tuple_expr_def)
  have no: "\<forall>e. \<not> type_guard ex_comparison ''x'' e"
    by (simp add: type_guard_def ex_comparison_def name_expr_def)
  have f1: "is_flow (if_flow ?int)" "command (if_flow ?int) = ''if''"
    "inputs (if_flow ?int) = [?int]" "asserts (if_flow ?int) = []"
    by (simp_all add: if_flow_def)
  have f2: "is_flow (flow_with ''while'' ?int [?late])"
    "command (flow_with ''while'' ?int [?late]) = ''while''"
    "inputs (flow_with ''while'' ?int [?late]) = [?int]"
    "asserts (flow_with ''while'' ?int [?late]) = [?late]"
    by (simp_all add: flow_with_def)
  have late: "\<not> usable_assert ex_evaluator ''x'' (Some (4, 4)) ?late"
    by (simp add: usable_assert_def isinstance_stmt_def)
  have f3: "is_flow (if_flow ?tup)" "command (if_flow ?tup) = ''if''"
    "inputs (if_flow ?tup) = [?tup]" "asserts (if_flow ?tup) = []"
    by (simp_all add: if_flow_def)
  have one: "length (inputs (if_flow ex_comparison)) = 1"
    "inputs (if_flow ex_comparison) ! 0 = ex_comparison"
    "is_flow (if_flow ex_comparison)" "asserts (if_flow ex_comparison) = []"
    "command (if_flow ex_comparison) = ''if''"
    by (simp_all add: if_flow_def)
  from check_isinstance_type_matches_guard [where stmt = ?int and search_name = "''x''"
      and ?classes0.0 = "name_expr ''int''" and evaluator = ex_evaluator
      and flow = "if_flow ?int" and pos = "Some (4, 4)"] g f1 int_types
  have a: "check_isinstance_type ex_evaluator ?int ''x'' = [Instance ''int'']"
    and b: "check_flow_information True ex_evaluator (if_flow ?int) ''x'' (Some (4, 4)) =
       Some [Instance ''int'']"
    by simp_all
  from check_isinstance_type_matches_guard [where stmt = ?int and search_name = "''x''"
      and ?classes0.0 = "name_expr ''int''" and evaluator = ex_evaluator
      and flow = "flow_with ''while'' ?int [?late]" and pos = "Some (4, 4)"] g f2 late int_types
  have w: "check_flow_information True ex_evaluator (flow_with ''while'' ?int [?late]) ''x''
      (Some (4, 4)) = Some [Instance ''int'']"
    by simp
  from check_isinstance_type_matches_guard [where stmt = ?tup and search_name = "''x''"
      and ?classes0.0 = "tuple_expr [''int'', ''str'']" and evaluator = ex_evaluator
      and flow = "if_flow ?tup" and pos = None] gt f3 tuple_types
  have c: "check_flow_information True ex_evaluator (if_flow ?tup) ''x'' None =
       Some [Instance ''int'', Instance ''str'']"
    by simp
  from check_isinstance_type_matches_guard [where stmt = ex_comparison
      and search_name = "''x''" and evaluator = ex_evaluator] no
  have "check_isinstance_type ex_evaluator ex_comparison ''x'' = []"
    by blast
  then have d: "check_flow_information True ex_evaluator (if_flow ex_comparison) ''x'' None =
      Some []"
    by (simp add: check_flow_information_def one assert_loop_None)
  from g a b w c no d show ?thesis by blast
qed

text \<open>
  The claim as stated fails on a flow with an assert in its body: narrowing over
  \<^verbatim>\<open>if isinstance(x, int):\<close> gives the instance of \<^verbatim>\<open>str\<close>, from the assert of line 2, when
  the query is on line 3.
\<close>

theorem narrow_prefers_assert_of_flow_body:
  "is_flow ex_guarded_flow
   \<and> command ex_guarded_flow = ''if''
   \<and> inputs ex_guarded_flow = [isinstance_stmt ''x'' (name_expr ''int'') (1, 3)]
   \<and> check_flow_information True ex_evaluator ex_guarded_flow ''x'' (Some (3, 4)) =
       Some [Instance ''str'']"
  by (simp add: ex_guarded_flow_def flow_with_def check_flow_information_def isinstance_stmt_def
      name_expr_def check_isinstance_type_def isinstance_classes_def narrowed_types_def
      ex_evaluator_def)

text \<open>
  Claim C4, as amended. With a query position, an assert of a scope is skipped only when
  it starts strictly after the position. Of the asserts that start at or before it, the
  last one in source order whose guard check gives a non-empty result decides the
  narrowing; when none does, the asserts contribute nothing.
\<close>

theorem assert_narrowing_most_recent_nonempty:
  "(is_scope flow \<and> asserts flow = before @ a # after \<and>
    \<not> pos_gt (stmt_start_pos a) p \<and> check_isinstance_type ev a n \<noteq> [] \<and>
    (\<forall>b \<in> set after. pos_gt (stmt_start_pos b) p \<or> check_isinstance_type ev b n = []) \<longrightarrow>
      check_flow_information True ev flow n (Some p) = Some (check_isinstance_type ev a n))
   \<and> ((\<forall>b \<in> set (asserts flow). pos_gt (stmt_start_pos b) p \<or> check_isinstance_type ev b n = []) \<longrightarrow>
      check_flow_information True ev flow n (Some p) =
        check_flow_information True ev (flow\<lparr>asserts := []\<rparr>) n (Some p))"
proof (intro conjI impI)
  assume h: "is_scope flow \<and> asserts flow = before @ a # after \<and>
    \<not> pos_gt (stmt_start_pos a) p \<and> check_isinstance_type ev a n \<noteq> [] \<and>
    (\<forall>b \<in> set after. pos_gt (stmt_start_pos b) p \<or> check_isinstance_type ev b n = [])"
  then have "\<forall>b \<in> set (rev after). pos_gt (stmt_start_pos b) p \<or> check_isinstance_type ev b n = []"
    by simp
  then have "assert_loop ev (rev after @ a # rev before) n (Some p) =
      assert_loop ev (a # rev before) n (Some p)"
    by (rule assert_loop_skip)
  with h have "assert_loop ev (rev (asserts flow)) n (Some p) = check_isinstance_type ev a n"
    by simp
  with h show "check_flow_information True ev flow n (Some p) = Some (check_isinstance_type ev a n)"
    by (simp add: check_flow_information_def)
next
  assume "\<forall>b \<in> set (asserts flow). pos_gt (stmt_start_pos b) p \<or> check_isinstance_type ev b n = []"
  then have "\<forall>b \<in> set (rev (asserts flow)). pos_gt (stmt_start_pos b) p \<or> check_isinstance_type ev b n = []"
    by simp
  from assert_loop_skip [OF this, of "[]"]
  have "assert_loop ev (rev (asserts flow)) n (Some p) = []" by simp
  then show "check_flow_information True ev flow n (Some p) =
        check_flow_information True ev (flow\<lparr>asserts := []\<rparr>) n (Some p)"
    by (simp add: check_flow_information_def)
qed

text \<open>
  With asserts on lines 1, 2 and 9 and the query on line 5, the assert of line 2 wins; an
  assert on line 9 alone gives nothing.
\<close>

theorem assert_narrowing_most_recent_nonempty_witness:
  "check_flow_information True ex_evaluator (scope_with ex_asserts) ''x'' (Some (5, 0)) =
     Some [Instance ''str'']
   \<and> check_flow_information True ex_evaluator
       (scope_with [isinstance_stmt ''x'' (name_expr ''float'') (9, 7)]) ''x'' (Some (5, 0)) =
     Some []"
proof -
  let ?i = "isinstance_stmt ''x'' (name_expr ''int'') (1, 7)"
  let ?s = "isinstance_stmt ''x'' (name_expr ''str'') (2, 7)"
  let ?f = "isinstance_stmt ''x'' (name_expr ''float'') (9, 7)"
  have chk: "check_isinstance_type ex_evaluator ?s ''x'' = [Instance ''str'']"
    by (simp add: check_isinstance_type_def isinstance_classes_def isinstance_stmt_def
        name_expr_def narrowed_types_def ex_evaluator_def)
  have pos: "\<not> pos_gt (stmt_start_pos ?s) (5, 0)" "pos_gt (stmt_start_pos ?f) (5, 0)"
    by (simp_all add: isinstance_stmt_def)
  have shape: "is_scope (scope_with ex_asserts)" "asserts (scope_with ex_asserts) = [?i] @ ?s # [?f]"
    by (simp_all add: scope_with_def ex_asserts_def)
  from assert_narrowing_most_recent_nonempty [where flow = "scope_with ex_asserts" and before = "[?i]" and a = ?s and after = "[?f]"
      and p = "(5, 0)" and ev = ex_evaluator and n = "''x''"] shape pos chk
  have a: "check_flow_information True ex_evaluator (scope_with ex_asserts) ''x'' (Some (5, 0)) =
     Some [Instance ''str'']"
    by simp
  have "asserts (scope_with [?f]) = [?f]"
    by (simp add: scope_with_def)
  with assert_narrowing_most_recent_nonempty [where flow = "scope_with [?f]" and p = "(5, 0)" and ev = ex_evaluator and n = "''x''"] pos
  have "check_flow_information True ex_evaluator (scope_with [?f]) ''x'' (Some (5, 0)) =
      check_flow_information True ex_evaluator ((scope_with [?f])\<lparr>asserts := []\<rparr>) ''x'' (Some (5, 0))"
    by simp
  also have "\<dots> = Some []"
    by (simp add: check_flow_information_def scope_with_def)
  finally show ?thesis using a by simp
qed

text \<open>
  The claim as stated fails twice. An assert that starts exactly at the query position is
  not skipped. And when the most recent assert is a guard whose types evaluate to
  nothing, an earlier assert wins.
\<close>

theorem assert_at_position_is_considered:
  "stmt_start_pos (isinstance_stmt ''x'' (name_expr ''int'') (3, 7)) = (3, 7)
   \<and> check_flow_information True ex_evaluator
       (scope_with [isinstance_stmt ''x'' (name_expr ''int'') (3, 7)]) ''x'' (Some (3, 7)) =
     Some [Instance ''int'']
   \<and> isinstance_classes (isinstance_stmt ''x'' (name_expr ''unknown'') (2, 7)) ''x'' =
     Some (name_expr ''unknown'')
   \<and> check_flow_information True ex_evaluator
       (scope_with [isinstance_stmt ''x'' (name_expr ''int'') (1, 7),
                    isinstance_stmt ''x'' (name_expr ''unknown'') (2, 7)]) ''x'' (Some (5, 0)) =
     Some [Instance ''int'']"
  by (simp add: check_flow_information_def scope_with_def isinstance_stmt_def name_expr_def
      check_isinstance_type_def isinstance_classes_def narrowed_types_def ex_evaluator_def)

section \<open>The per-module search: where a call path is split\<close>

lemma index_of_None: "index_of xs v = None \<longleftrightarrow> v \<notin> set xs"
  by (induction xs) auto

lemma index_of_Some:
  "index_of xs v = Some j \<Longrightarrow> j < length xs \<and> xs ! j = v \<and> v \<notin> set (take j xs)"
proof (induction xs arbitrary: j)
  case Nil
  then show ?case by simp
next
  case (Cons x xs)
  show ?case
  proof (cases "x = v")
    case True
    with Cons.prems show ?thesis by simp
  next
    case False
    with Cons.prems obtain k where k: "index_of xs v = Some k" "j = Suc k"
      by auto
    from Cons.IH [OF k(1)] False k(2) show ?thesis by simp
  qed
qed

lemma first_index_unique:
  assumes "index_of xs v = Some j" "i < length xs" "xs ! i = v"
  shows "j = i \<longleftrightarrow> v \<notin> set (take i xs)"
proof
  assume "j = i"
  with index_of_Some [OF assms(1)] show "v \<notin> set (take i xs)" by simp
next
  assume notin: "v \<notin> set (take i xs)"
  from index_of_Some [OF assms(1)] have j: "j < length xs" "xs ! j = v" "v \<notin> set (take j xs)"
    by simp_all
  have "\<not> j < i"
  proof
    assume "j < i"
    with assms(2) have "take i xs ! j = xs ! j" "j < length (take i xs)" by simp_all
    then have "xs ! j \<in> set (take i xs)" by (metis nth_mem)
    with j(2) notin show False by simp
  qed
  moreover have "\<not> i < j"
  proof
    assume "i < j"
    with j(1) have "take j xs ! i = xs ! i" "i < length (take j xs)" by simp_all
    then have "xs ! i \<in> set (take j xs)" by (metis nth_mem)
    with assms(3) j(3) show False by simp
  qed
  ultimately show "j = i" by simp
qed

lemma listRightIndex_Some:
  assumes "v \<in> set xs"
  shows "\<exists>i. listRightIndex xs v = Some i \<and> i < length xs \<and> xs ! i = v \<and>
             v \<notin> set (drop (Suc i) xs)"
proof -
  from assms have "index_of (rev xs) v \<noteq> None" by (simp add: index_of_None)
  then obtain j where j: "index_of (rev xs) v = Some j" by auto
  from index_of_Some [OF j] have jl: "j < length xs" and jv: "rev xs ! j = v"
    and jn: "v \<notin> set (take j (rev xs))" by simp_all
  let ?i = "length xs - j - 1"
  have i: "listRightIndex xs v = Some ?i" by (simp add: listRightIndex_def j)
  from jl have il: "?i < length xs" by simp
  from jl jv have iv: "xs ! ?i = v" by (simp add: rev_nth)
  from jl have "Suc ?i = length xs - j" by simp
  moreover have "take j (rev xs) = rev (drop (length xs - j) xs)" by (simp add: take_rev)
  ultimately have "v \<notin> set (drop (Suc ?i) xs)" using jn by simp
  with i il iv show ?thesis by blast
qed

text \<open>
  Claim C6, as amended. The path is split at the rightmost occurrence of the search name
  into the part before it and the part after it. The match is skipped exactly when
  nothing follows the name and the name does not occur earlier in the path, that is, when
  the rightmost occurrence is the only one; with nothing after the name and an earlier
  occurrence, the match is processed. A name that is not in the path is a
  \<^verbatim>\<open>ValueError\<close>.
\<close>

theorem split_call_path_at_rightmost:
  "(func_name \<in> set call_path \<longrightarrow>
     (\<exists>i < length call_path.
        call_path ! i = func_name \<and> func_name \<notin> set (drop (Suc i) call_path) \<and>
        split_call_path call_path func_name =
          (if drop (Suc i) call_path = [] \<and> func_name \<notin> set (take i call_path) then Continue
           else Proceed (take i call_path) (drop (Suc i) call_path))))
   \<and> (func_name \<notin> set call_path \<longrightarrow> split_call_path call_path func_name = ValueError)"
proof (intro conjI impI)
  assume mem: "func_name \<in> set call_path"
  from listRightIndex_Some [OF mem] obtain i where
    i: "listRightIndex call_path func_name = Some i" "i < length call_path"
       "call_path ! i = func_name" "func_name \<notin> set (drop (Suc i) call_path)"
    by blast
  from mem obtain j where j: "index_of call_path func_name = Some j"
    using index_of_None [of call_path func_name] by auto
  from first_index_unique [OF j i(2) i(3)]
  have "j = i \<longleftrightarrow> func_name \<notin> set (take i call_path)" .
  with i(1) j have "split_call_path call_path func_name =
          (if drop (Suc i) call_path = [] \<and> func_name \<notin> set (take i call_path) then Continue
           else Proceed (take i call_path) (drop (Suc i) call_path))"
    by (simp add: split_call_path_def Let_def)
  with i show "\<exists>i < length call_path.
        call_path ! i = func_name \<and> func_name \<notin> set (drop (Suc i) call_path) \<and>
        split_call_path call_path func_name =
          (if drop (Suc i) call_path = [] \<and> func_name \<notin> set (take i call_path) then Continue
           else Proceed (take i call_path) (drop (Suc i) call_path))"
    by blast
next
  assume "func_name \<notin> set call_path"
  then have "index_of (rev call_path) func_name = None" by (simp add: index_of_None)
  then show "split_call_path call_path func_name = ValueError"
    by (simp add: split_call_path_def listRightIndex_def)
qed

text \<open>\<^verbatim>\<open>a.foo()\<close> is processed with \<^verbatim>\<open>a\<close> before the name and the execution after it.\<close>

theorem split_call_path_at_rightmost_witness:
  "split_call_path [NamePart ''a'', NamePart ''foo'', Execution (Array [] None None)] (NamePart ''foo'') =
     Proceed [NamePart ''a''] [Execution (Array [] None None)]
   \<and> split_call_path [NamePart ''a'', NamePart ''b''] (NamePart ''foo'') = ValueError"
proof -
  let ?path = "[NamePart ''a'', NamePart ''foo'', Execution (Array [] None None)]"
  let ?foo = "NamePart ''foo''"
  have m: "?foo \<in> set ?path" by simp
  with split_call_path_at_rightmost [of ?foo ?path]
  obtain i where i: "i < length ?path" "?path ! i = ?foo"
    "split_call_path ?path ?foo =
       (if drop (Suc i) ?path = [] \<and> ?foo \<notin> set (take i ?path) then Continue
        else Proceed (take i ?path) (drop (Suc i) ?path))"
    by blast
  from i(1) have "i = 0 \<or> i = 1 \<or> i = 2" by auto
  with i(2) have "i = 1" by auto
  with i(3) have a: "split_call_path ?path ?foo = Proceed [NamePart ''a''] [Execution (Array [] None None)]"
    by simp
  have "?foo \<notin> set [NamePart ''a'', NamePart ''b'']" by simp
  with split_call_path_at_rightmost [of ?foo "[NamePart ''a'', NamePart ''b'']"]
  have "split_call_path [NamePart ''a'', NamePart ''b''] ?foo = ValueError" by blast
  with a show ?thesis by simp
qed

text \<open>
  The claim as stated fails both ways: the path of a bare \<^verbatim>\<open>foo\<close>, where the only
  occurrence has nothing after it, is skipped; the path of \<^verbatim>\<open>foo.foo\<close>, where the name
  occurs earlier and nothing follows, is processed.
\<close>

theorem split_call_path_skips_single_occurrence:
  "split_call_path [NamePart ''foo''] (NamePart ''foo'') = Continue
   \<and> split_call_path [NamePart ''foo'', NamePart ''foo''] (NamePart ''foo'') =
       Proceed [NamePart ''foo''] []"
  by (simp add: split_call_path_def listRightIndex_def)

section \<open>Module discovery: what is parsed, what is swallowed, in which order\<close>



lemma check_python_file_cases:
  "check_python_file env nm p =
     (case parser_cache env p of
        Some m \<Rightarrow> Inr (Some m, [])
      | None \<Rightarrow>
          (case read_source env p of
             Inl e \<Rightarrow> if e = IOError then Inr (None, []) else Inl e
           | Inr source \<Rightarrow>
               if is_in nm source then Inr (Some (load_module env p source), [p])
               else Inr (None, [])))"
  by (simp add: check_python_file_def check_fs_def split: option.splits sum.splits)

































text \<open>
  What \<^verbatim>\<open>except IOError\<close> catches: a file whose read raises \<open>IOError\<close> is passed over, and
  any other exception of the read ends the loop.
\<close>

lemma check_paths_read_failure:
  "(parser_cache env p = None \<and> read_source env p = Inl IOError \<longrightarrow>
      check_paths env nm mods (p # ps) = check_paths env nm mods ps)
   \<and> (parser_cache env p = None \<and> read_source env p = Inl e \<and> e \<noteq> IOError \<longrightarrow>
      check_paths env nm mods (p # ps) = \<lparr>yielded = [], parsed = [], raised = Some e\<rparr>)"
  by (simp add: check_python_file_cases Let_def)

text \<open>
  Claim C8. The source means to pass over a file that cannot be read (lines 77 to 80),
  and does so for a file whose read raises \<open>IOError\<close>: \<^verbatim>\<open>c.py\<close> is still reached. The decode
  error of \<^verbatim>\<open>f.read()\<close> is not caught: with a sibling \<^verbatim>\<open>b.py\<close> that cannot be decoded,
  discovery ends with that exception after the seed, and \<^verbatim>\<open>c.py\<close> is never looked at.
\<close>

theorem decode_error_escapes_discovery:
  "read_source ex_env_undecodable ''/p/b.py'' = Inl UnicodeDecodeError
   \<and> get_directory_modules_for_name list_order True [] ex_env_undecodable [ex_module_a] ''foo'' =
     \<lparr>yielded = [ex_module_a], parsed = [], raised = Some UnicodeDecodeError\<rparr>
   \<and> get_directory_modules_for_name list_order True [] ex_env_unreadable [ex_module_a] ''foo'' =
     \<lparr>yielded = [ex_module_a, \<lparr>path = Some ''/p/c.py'', module_id = 106\<rparr>],
      parsed = [''/p/c.py''], raised = None\<rparr>"
proof -
  have "get_directory_modules_for_name list_order True [] ex_env_undecodable [ex_module_a] ''foo'' =
     \<lparr>yielded = [ex_module_a], parsed = [], raised = Some UnicodeDecodeError\<rparr>"
    by code_simp
  moreover have
    "get_directory_modules_for_name list_order True [] ex_env_unreadable [ex_module_a] ''foo'' =
     \<lparr>yielded = [ex_module_a, \<lparr>path = Some ''/p/c.py'', module_id = 106\<rparr>],
      parsed = [''/p/c.py''], raised = None\<rparr>"
    by code_simp
  ultimately show ?thesis by (simp add: ex_env_undecodable_def)
qed







section \<open>Dynamic parameter search: the listener\<close>

text \<open>
  Claim C1. The listener is removed when the loop over the modules ends normally, and not
  when an exception leaves it: with a sibling file that cannot be decoded, or with a
  per-module search that raises, the listener set after the call still holds the
  listener.
\<close>

theorem search_params_leaves_listener_on_exception:
  "search_params True True [] ex_env_undecodable (\<lambda>m. Inr ([]::nat list))
     ex_module_a ''foo'' (7::nat) {} = ({7}, Inl UnicodeDecodeError)
   \<and> search_params True False [] ex_env (\<lambda>m. (Inl EvaluatorError :: exn + nat list))
     ex_module_a ''foo'' (7::nat) {} = ({7}, Inl EvaluatorError)"
  by code_simp

text \<open>
  On a normal return the listener set is the one before the call, given that the new
  listener was not in it.
\<close>

theorem search_params_restores_listener_on_return:
  "listener \<notin> listeners \<Longrightarrow>
   snd (search_params dp other additional env g m nm listener listeners) = Inr r \<Longrightarrow>
   fst (search_params dp other additional env g m nm listener listeners) = listeners"
  by (auto simp: search_params_def Let_def split: if_splits sum.splits)

theorem search_params_restores_listener_on_return_witness:
  "snd (search_params True True [] ex_env (\<lambda>m. Inr ([]::nat list)) ex_module_a ''foo''
          (7::nat) {3}) = Inr []
   \<and> fst (search_params True True [] ex_env (\<lambda>m. Inr ([]::nat list)) ex_module_a ''foo''
          (7::nat) {3}) = {3}"
proof -
  have r: "snd (search_params True True [] ex_env (\<lambda>m. Inr ([]::nat list)) ex_module_a ''foo''
          (7::nat) {3}) = Inr []"
    by code_simp
  have "(7::nat) \<notin> {3}" by simp
  from search_params_restores_listener_on_return [OF this r] r show ?thesis by simp
qed

text \<open>On an exception the listener set is the one before the call and the listener.\<close>

lemma search_params_leaks:
  "snd (search_params dp other additional env g m nm listener listeners) = Inl e \<Longrightarrow>
   fst (search_params dp other additional env g m nm listener listeners) = insert listener listeners"
  by (auto simp: search_params_def Let_def split: if_splits sum.splits)

end
